theory Spec2Isabelle
  imports Main "HOL-Library.Multiset"
begin

section \<open>The fixture-driven tester (tester.cpp)\<close>

text \<open>
  A shallow embedding of \<^verbatim>\<open>src/cpp/tester.cpp\<close>. Strings are byte lists, as
  \<^verbatim>\<open>std::string\<close> is. Text written to \<^verbatim>\<open>std::cout\<close> is returned as a string
  beside the function's value. An exception is a value of \<open>thrown\<close>; the
  \<^verbatim>\<open>int\<close> of the source is 32 bits wide, and its range is written out where
  the library functions check it.
\<close>

subsection \<open>Configuration\<close>

definition TESTS_DIR :: string where
  "TESTS_DIR = ''tests/''"

definition FULL_LOGGING :: bool where
  "FULL_LOGGING = False"

definition ESC :: char where
  "ESC = CHR 0x1B"

definition endl :: string where
  "endl = [CHR 0x0A]"

definition COLORS :: "(string \<times> string) list" where
  "COLORS =
    [(''green'', ESC # ''[92m''),
     (''red'', ESC # ''[91m''),
     (''bold'', ESC # ''[1m''),
     (''end'', ESC # ''[0m'')]"

text \<open>The three symbols of the messages, as their UTF-8 bytes.\<close>

definition CROSS_MARK :: string where
  "CROSS_MARK = [CHR 0xE2, CHR 0x9D, CHR 0x8C]"

definition WARNING_SIGN :: string where
  "WARNING_SIGN = [CHR 0xE2, CHR 0x9A, CHR 0xA0, CHR 0xEF, CHR 0xB8, CHR 0x8F]"

definition CHECK_MARK :: string where
  "CHECK_MARK = [CHR 0xE2, CHR 0x9C, CHR 0x85]"

subsection \<open>Helper functions\<close>

text \<open>
  \<^verbatim>\<open>print_colored\<close>: the colour code (empty for an unknown colour name), the
  text, and the code stored under the key \<^verbatim>\<open>end\<close>. \<^verbatim>\<open>COLORS.at("end")\<close> cannot
  throw, since the key is in the table.
\<close>

definition print_colored :: "string \<Rightarrow> string \<Rightarrow> string" where
  "print_colored text color_name =
    (let color_code = (case map_of COLORS color_name of Some c \<Rightarrow> c | None \<Rightarrow> [])
     in color_code @ text @ (case map_of COLORS ''end'' of Some c \<Rightarrow> c | None \<Rightarrow> []))"

text \<open>
  The index of the last character that satisfies \<open>P\<close>, \<open>None\<close> where the
  library returns \<^verbatim>\<open>npos\<close>.
\<close>

fun rfind_if :: "(char \<Rightarrow> bool) \<Rightarrow> string \<Rightarrow> nat option" where
  "rfind_if P [] = None"
| "rfind_if P (c # cs) =
    (case rfind_if P cs of
       Some i \<Rightarrow> Some (Suc i)
     | None \<Rightarrow> if P c then Some 0 else None)"

definition find_last_not_of :: "string \<Rightarrow> string \<Rightarrow> nat option" where
  "find_last_not_of s chars = rfind_if (\<lambda>c. c \<notin> set chars) s"

text \<open>
  \<^verbatim>\<open>s.erase(pos)\<close> with \<^verbatim>\<open>pos <= s.size()\<close> keeps the first \<open>pos\<close>
  characters.
\<close>

definition erase :: "string \<Rightarrow> nat \<Rightarrow> string" where
  "erase s pos = take pos s"

definition TRIM_CHARS :: string where
  "TRIM_CHARS = [CHR '' '', CHR 0x0A, CHR 0x0D, CHR 0x09]"

text \<open>
  \<^verbatim>\<open>s.erase(s.find_last_not_of(" \n\r\t") + 1)\<close>. Where nothing is found,
  \<^verbatim>\<open>npos + 1\<close> wraps around to 0 in \<^verbatim>\<open>size_t\<close>.
\<close>

definition trim_trailing :: "string \<Rightarrow> string" where
  "trim_trailing s =
    (case find_last_not_of s TRIM_CHARS of
       None \<Rightarrow> erase s 0
     | Some i \<Rightarrow> erase s (i + 1))"

subsection \<open>Integers and their decimal text\<close>

definition INT_MIN :: int where
  "INT_MIN = - (2 ^ 31)"

definition INT_MAX :: int where
  "INT_MAX = 2 ^ 31 - 1"

text \<open>\<^verbatim>\<open>isspace\<close> in the C locale: space and the five controls 9 to 13.\<close>

definition isspace :: "char \<Rightarrow> bool" where
  "isspace c = (c = CHR '' '' \<or> (9 \<le> (of_char c :: nat) \<and> (of_char c :: nat) \<le> 13))"

definition isdigit :: "char \<Rightarrow> bool" where
  "isdigit c = (48 \<le> (of_char c :: nat) \<and> (of_char c :: nat) \<le> 57)"

definition digit_val :: "char \<Rightarrow> nat" where
  "digit_val c = of_char c - 48"

definition digit_char :: "nat \<Rightarrow> char" where
  "digit_char d = char_of (48 + d)"

definition digits_value :: "string \<Rightarrow> nat" where
  "digits_value ds = foldl (\<lambda>a c. 10 * a + digit_val c) 0 ds"

text \<open>An optional sign in front of the digits: whether it is a minus, and the rest.\<close>

fun strip_sign :: "string \<Rightarrow> bool \<times> string" where
  "strip_sign [] = (False, [])"
| "strip_sign (c # cs) =
    (if c = CHR ''-'' then (True, cs)
     else if c = CHR ''+'' then (False, cs)
     else (False, c # cs))"

text \<open>
  \<^verbatim>\<open>std::stoi(str)\<close>: \<^verbatim>\<open>strtol\<close> in base 10 skips leading white space, takes
  an optional sign and the longest run of digits, and leaves the rest of the
  string unread. No digit is \<^verbatim>\<open>std::invalid_argument\<close>; a value outside
  \<^verbatim>\<open>int\<close> is \<^verbatim>\<open>std::out_of_range\<close>. Both derive from \<^verbatim>\<open>std::exception\<close>.
\<close>

datatype stoi_error = invalid_argument | out_of_range

definition stoi :: "string \<Rightarrow> stoi_error + int" where
  "stoi str =
    (let (neg, r) = strip_sign (dropWhile isspace str);
         ds = takeWhile isdigit r
     in if ds = [] then Inl invalid_argument
        else let v = (if neg then - int (digits_value ds) else int (digits_value ds))
             in if v < INT_MIN \<or> INT_MAX < v then Inl out_of_range else Inr v)"

text \<open>\<^verbatim>\<open>std::to_string(int)\<close>: the decimal digits, a minus sign in front of a negative value.\<close>

function digits_of :: "nat \<Rightarrow> string" where
  "digits_of n = (if n < 10 then [digit_char n] else digits_of (n div 10) @ [digit_char (n mod 10)])"
  by pat_completeness auto
termination
  by (relation "measure (\<lambda>n. n)") auto

declare digits_of.simps [simp del]

definition to_string :: "int \<Rightarrow> string" where
  "to_string v = (if v < 0 then CHR ''-'' # digits_of (nat (- v)) else digits_of (nat v))"

subsection \<open>Exceptions\<close>

text \<open>
  What a \<^verbatim>\<open>throw\<close> carries, as far as the handlers of the tester tell it
  apart: an object derived from \<^verbatim>\<open>std::exception\<close>, with the text of
  \<^verbatim>\<open>what()\<close>, or an object of any other type.
\<close>

datatype thrown = StdException string | OtherException

subsection \<open>Paths and the test directory\<close>

text \<open>
  \<^verbatim>\<open>path::extension\<close> of a file name: from the last dot on, unless the name is
  \<^verbatim>\<open>.\<close> or \<^verbatim>\<open>..\<close>, has no dot, or has its only dot in front. \<^verbatim>\<open>path::stem\<close>
  is the name without its extension.
\<close>

definition extension :: "string \<Rightarrow> string" where
  "extension filename =
    (if filename = ''.'' \<or> filename = ''..'' then []
     else case rfind_if (\<lambda>c. c = CHR ''.'') filename of
            None \<Rightarrow> []
          | Some 0 \<Rightarrow> []
          | Some (Suc i) \<Rightarrow> drop (Suc i) filename)"

definition stem :: "string \<Rightarrow> string" where
  "stem filename = take (length filename - length (extension filename)) filename"

text \<open>
  An entry of the test directory: whether \<^verbatim>\<open>is_regular_file()\<close> holds for it,
  and the bytes that reading it yields (\<open>None\<close> for an entry that cannot be
  opened for reading).
\<close>

record dir_entry =
  regular_file :: bool
  contents :: "string option"

text \<open>
  What the path \<^verbatim>\<open>tests/\<close> names. It may be absent, or something other
  than a directory, or a directory whose entries \<^verbatim>\<open>directory_iterator\<close> yields
  in the order of the list. The calls of \<^verbatim>\<open>std::filesystem\<close> that
  \<^verbatim>\<open>find_test_cases\<close> makes are the throwing ones, so two more cases are
  told apart, each with the text of \<^verbatim>\<open>what()\<close> of the
  \<^verbatim>\<open>filesystem_error\<close>, which derives from \<^verbatim>\<open>std::exception\<close>:
  \<open>StatusFails\<close> is a path whose status cannot be read, so that
  \<^verbatim>\<open>fs::exists\<close> throws; \<open>IterationFails\<close> is a directory, with the
  entries it holds, for which the loop over its entries throws
  (\<^verbatim>\<open>directory_iterator\<close> cannot be made or advanced, or
  \<^verbatim>\<open>is_regular_file()\<close> of an entry cannot read the status).
\<close>

datatype node =
    Absent
  | NonDirectory
  | Directory "(string \<times> dir_entry) list"
  | StatusFails string
  | IterationFails "(string \<times> dir_entry) list" string

fun fs_exists :: "node \<Rightarrow> thrown + bool" where
  "fs_exists Absent = Inr False"
| "fs_exists NonDirectory = Inr True"
| "fs_exists (Directory es) = Inr True"
| "fs_exists (StatusFails what) = Inl (StdException what)"
| "fs_exists (IterationFails es what) = Inr True"

fun is_directory :: "node \<Rightarrow> thrown + bool" where
  "is_directory (Directory es) = Inr True"
| "is_directory Absent = Inr False"
| "is_directory NonDirectory = Inr False"
| "is_directory (StatusFails what) = Inl (StdException what)"
| "is_directory (IterationFails es what) = Inr True"

text \<open>
  \<^verbatim>\<open>TESTS_DIR / name\<close>: \<^verbatim>\<open>TESTS_DIR\<close> ends with a separator and the names
  built by \<^verbatim>\<open>run_test\<close> are relative, so the result is the concatenation.
\<close>

definition path_append :: "string \<Rightarrow> string \<Rightarrow> string" where
  "path_append dir name = dir @ name"

text \<open>The entry that a path under \<^verbatim>\<open>TESTS_DIR\<close> names, if there is one.\<close>

definition lookup_path :: "node \<Rightarrow> string \<Rightarrow> dir_entry option" where
  "lookup_path tests p =
    (case tests of
       Directory es \<Rightarrow>
         if take (length TESTS_DIR) p = TESTS_DIR then map_of es (drop (length TESTS_DIR) p)
         else None
     | IterationFails es what \<Rightarrow>
         if take (length TESTS_DIR) p = TESTS_DIR then map_of es (drop (length TESTS_DIR) p)
         else None
     | Absent \<Rightarrow> None
     | NonDirectory \<Rightarrow> None
     | StatusFails what \<Rightarrow> None)"

definition path_exists :: "node \<Rightarrow> string \<Rightarrow> bool" where
  "path_exists tests p = (lookup_path tests p \<noteq> None)"

subsection \<open>Input streams\<close>

text \<open>
  An \<^verbatim>\<open>std::ifstream\<close>: the bytes not yet read and the two state bits that the
  extractions of \<^verbatim>\<open>run_test\<close> set.
\<close>

record istream =
  rest :: string
  eofbit :: bool
  failbit :: bool

definition good :: "istream \<Rightarrow> bool" where
  "good s = (\<not> eofbit s \<and> \<not> failbit s)"

text \<open>Opening a file for reading: \<open>None\<close> is the stream that tests false.\<close>

definition ifstream_open :: "node \<Rightarrow> string \<Rightarrow> istream option" where
  "ifstream_open tests p =
    (case lookup_path tests p of
       None \<Rightarrow> None
     | Some e \<Rightarrow>
         (case contents e of
            None \<Rightarrow> None
          | Some bytes \<Rightarrow> Some \<lparr>rest = bytes, eofbit = False, failbit = False\<rparr>))"

text \<open>
  \<^verbatim>\<open>std::getline(stream, str)\<close>. On a stream that is not good it sets
  \<^verbatim>\<open>failbit\<close> and leaves \<open>str\<close> alone. Otherwise \<open>str\<close> becomes the characters
  up to the first newline, which is consumed; reaching the end sets
  \<^verbatim>\<open>eofbit\<close>, and \<^verbatim>\<open>failbit\<close> too when no character was extracted.
\<close>

definition getline :: "istream \<Rightarrow> string \<Rightarrow> istream \<times> string" where
  "getline s str =
    (if \<not> good s then (s\<lparr>failbit := True\<rparr>, str)
     else if rest s = [] then (s\<lparr>eofbit := True, failbit := True\<rparr>, [])
     else if CHR 0x0A \<in> set (rest s)
       then (s\<lparr>rest := tl (dropWhile (\<lambda>c. c \<noteq> CHR 0x0A) (rest s))\<rparr>,
             takeWhile (\<lambda>c. c \<noteq> CHR 0x0A) (rest s))
     else (s\<lparr>rest := [], eofbit := True\<rparr>, rest s))"

text \<open>
  \<^verbatim>\<open>stream >> n\<close> for an \<^verbatim>\<open>int\<close>. The sentry fails on a stream that is not
  good, and when only white space is left; then nothing is stored in \<open>n\<close>.
  Otherwise an optional sign and the digits after it are read: with no digit
  0 is stored, a value outside \<^verbatim>\<open>int\<close> is stored as the nearest bound, and
  both set \<^verbatim>\<open>failbit\<close>.
\<close>

definition extract_int :: "istream \<Rightarrow> int \<Rightarrow> istream \<times> int" where
  "extract_int s n =
    (if \<not> good s then (s\<lparr>failbit := True\<rparr>, n)
     else let r0 = dropWhile isspace (rest s)
          in if r0 = [] then (s\<lparr>rest := [], eofbit := True, failbit := True\<rparr>, n)
             else let (neg, r1) = strip_sign r0;
                      ds = takeWhile isdigit r1;
                      r2 = dropWhile isdigit r1;
                      s' = s\<lparr>rest := r2, eofbit := (r2 = [])\<rparr>
                  in if ds = [] then (s'\<lparr>failbit := True\<rparr>, 0)
                     else let v = (if neg then - int (digits_value ds) else int (digits_value ds))
                          in if v < INT_MIN then (s'\<lparr>failbit := True\<rparr>, INT_MIN)
                             else if INT_MAX < v then (s'\<lparr>failbit := True\<rparr>, INT_MAX)
                             else (s', v))"

subsection \<open>The solution under test\<close>

text \<open>
  The function \<^verbatim>\<open>solution\<close> of \<^verbatim>\<open>solution.h\<close> is a parameter: for the text and
  the integer it is called with, it returns an \<^verbatim>\<open>int\<close> or throws.
\<close>

type_synonym solution = "string \<Rightarrow> int \<Rightarrow> thrown + int"

subsection \<open>Discovery\<close>

text \<open>
  The body of the loop over the directory entries: the number that is appended
  for an entry, if any. Only a regular file with the extension \<^verbatim>\<open>.in\<close> is
  looked at; the handler ignores both exceptions of \<^verbatim>\<open>std::stoi\<close>.
\<close>

definition case_number_of_entry :: "string \<times> dir_entry \<Rightarrow> int option" where
  "case_number_of_entry entry =
    (if regular_file (snd entry) \<and> extension (fst entry) = ''.in''
     then (case stoi (stem (fst entry)) of
             Inr num \<Rightarrow> Some num
           | Inl e \<Rightarrow> None)
     else None)"

fun collect_case_numbers :: "(string \<times> dir_entry) list \<Rightarrow> int list \<Rightarrow> int list" where
  "collect_case_numbers [] case_numbers = case_numbers"
| "collect_case_numbers (entry # entries) case_numbers =
    collect_case_numbers entries
      (case case_number_of_entry entry of
         Some num \<Rightarrow> case_numbers @ [num]
       | None \<Rightarrow> case_numbers)"

text \<open>
  The loop header with \<^verbatim>\<open>fs::directory_iterator\<close>: the entries that the loop
  visits, or the \<^verbatim>\<open>filesystem_error\<close> that ends it. \<^verbatim>\<open>find_test_cases\<close>
  reaches it for a directory only. On anything else the iterator cannot be
  made either; the standard leaves the text of \<^verbatim>\<open>what()\<close> to the library,
  and a short one stands for it here.
\<close>

fun directory_iterator :: "node \<Rightarrow> thrown + (string \<times> dir_entry) list" where
  "directory_iterator (Directory entries) = Inr entries"
| "directory_iterator (IterationFails entries what) = Inl (StdException what)"
| "directory_iterator (StatusFails what) = Inl (StdException what)"
| "directory_iterator Absent = Inl (StdException ''directory iterator cannot open directory'')"
| "directory_iterator NonDirectory = Inl (StdException ''directory iterator cannot open directory'')"

text \<open>
  \<^verbatim>\<open>find_test_cases\<close>: the text it prints, and the base names it returns or
  the exception that leaves it. Only \<^verbatim>\<open>std::stoi\<close> is inside a \<^verbatim>\<open>try\<close>
  block, so what the filesystem calls throw leaves the function. The second
  test of the guard is made only when the first does not decide it.
  \<^verbatim>\<open>std::sort\<close> on integers yields the one sorted arrangement of them.
\<close>

definition not_found :: "string \<Rightarrow> string \<times> (thrown + string list)" where
  "not_found directory =
    (print_colored (CROSS_MARK @ '' Error: Test directory '' @ [CHR 0x27] @ directory
                    @ [CHR 0x27] @ '' not found.'') ''red'' @ endl,
     Inr [])"

definition find_test_cases :: "node \<Rightarrow> string \<Rightarrow> string \<times> (thrown + string list)" where
  "find_test_cases tests directory =
    (case fs_exists tests of
       Inl e \<Rightarrow> ([], Inl e)
     | Inr present \<Rightarrow>
         if \<not> present then not_found directory
         else (case is_directory tests of
                 Inl e \<Rightarrow> ([], Inl e)
               | Inr is_dir \<Rightarrow>
                   if \<not> is_dir then not_found directory
                   else (case directory_iterator tests of
                           Inl e \<Rightarrow> ([], Inl e)
                         | Inr entries \<Rightarrow>
                             ([], Inr (map to_string (sort (collect_case_numbers entries [])))))))"

subsection \<open>Running one test\<close>

text \<open>
  \<^verbatim>\<open>read_file_content\<close>: the whole file, or \<^verbatim>\<open>std::runtime_error\<close> when it
  cannot be opened.
\<close>

definition read_file_content :: "node \<Rightarrow> string \<Rightarrow> thrown + string" where
  "read_file_content tests filepath =
    (case ifstream_open tests filepath of
       None \<Rightarrow> Inl (StdException (''Could not open file: '' @ filepath))
     | Some file \<Rightarrow> Inr (rest file))"

text \<open>
  The body of the \<^verbatim>\<open>try\<close> block of \<^verbatim>\<open>run_test\<close>: the text printed, and the
  value returned or the exception that leaves the block. \<open>uninit\<close> is the
  value that the uninitialised \<^verbatim>\<open>input_int\<close> holds when the extraction stores
  nothing.
\<close>

definition run_test_try :: "node \<Rightarrow> solution \<Rightarrow> int \<Rightarrow> string \<Rightarrow> string \<Rightarrow> string \<times> (thrown + bool)" where
  "run_test_try tests solve uninit in_file out_file =
    (case ifstream_open tests in_file of
       None \<Rightarrow>
         (print_colored (WARNING_SIGN @ '' SKIPPED (Input file not found)'') ''bold'' @ endl,
          Inr False)
     | Some input_stream \<Rightarrow>
         let (stream1, input_str) = getline input_stream [];
             (stream2, input_int) = extract_int stream1 uninit
         in if \<not> path_exists tests out_file
            then (print_colored (WARNING_SIGN @ '' SKIPPED (Output file not found)'') ''bold'' @ endl,
                  Inr False)
            else (case read_file_content tests out_file of
                    Inl e \<Rightarrow> ([], Inl e)
                  | Inr content \<Rightarrow>
                      let expected_output = trim_trailing content
                      in (case solve input_str input_int of
                            Inl e \<Rightarrow> ([], Inl e)
                          | Inr result \<Rightarrow>
                              let actual_output = trim_trailing (to_string result)
                              in if actual_output = expected_output
                                 then (if FULL_LOGGING
                                       then print_colored (CHECK_MARK @ '' PASSED'') ''green'' @ endl
                                       else [],
                                       Inr True)
                                 else (if FULL_LOGGING
                                       then print_colored (CROSS_MARK @ '' FAILED'') ''red'' @ endl
                                            @ ''   - Input          : text='' @ [CHR 0x22] @ input_str
                                            @ [CHR 0x22] @ '', n='' @ to_string input_int @ endl
                                            @ ''   - Expected output: '' @ expected_output @ endl
                                            @ ''   - Actual output  : '' @ actual_output @ endl
                                       else [],
                                       Inr False))))"

text \<open>
  \<^verbatim>\<open>run_test\<close>: the handler catches what derives from \<^verbatim>\<open>std::exception\<close>,
  prints its \<^verbatim>\<open>what()\<close> and returns false; any other exception leaves the
  function.
\<close>

definition run_test :: "node \<Rightarrow> solution \<Rightarrow> int \<Rightarrow> string \<Rightarrow> string \<times> (thrown + bool)" where
  "run_test tests solve uninit case_name =
    (let in_file = path_append TESTS_DIR (case_name @ ''.in'');
         out_file = path_append TESTS_DIR (case_name @ ''.out'');
         started = (if FULL_LOGGING
                    then ''Running test '' @ [CHR 0x27] @ case_name @ [CHR 0x27] @ ''... ''
                    else [])
     in case run_test_try tests solve uninit in_file out_file of
          (printed, Inr b) \<Rightarrow> (started @ printed, Inr b)
        | (printed, Inl (StdException what)) \<Rightarrow>
            (started @ printed @ print_colored (CROSS_MARK @ '' FAILED'') ''red'' @ endl
             @ ''   - Error: An exception occurred: '' @ what @ endl,
             Inr False)
        | (printed, Inl OtherException) \<Rightarrow> (started @ printed, Inl OtherException))"

subsection \<open>The main driver\<close>

text \<open>
  The loop of \<^verbatim>\<open>main\<close> over the test cases, from the \<open>k\<close>-th call of
  \<^verbatim>\<open>run_test\<close> on: the text printed, and the final \<^verbatim>\<open>passed_count\<close> or the
  exception that left \<^verbatim>\<open>run_test\<close>. \<open>uninit k\<close> is the value of the
  uninitialised \<^verbatim>\<open>input_int\<close> in the \<open>k\<close>-th call.
\<close>

fun run_tests :: "node \<Rightarrow> solution \<Rightarrow> (nat \<Rightarrow> int) \<Rightarrow> nat \<Rightarrow> string list \<Rightarrow> int \<Rightarrow> string \<times> (thrown + int)" where
  "run_tests tests solve uninit k [] passed_count = ([], Inr passed_count)"
| "run_tests tests solve uninit k (test_case # test_cases) passed_count =
    (case run_test tests solve (uninit k) test_case of
       (printed, Inl e) \<Rightarrow> (printed, Inl e)
     | (printed, Inr b) \<Rightarrow>
         (case run_tests tests solve uninit (Suc k) test_cases
                 (if b then passed_count + 1 else passed_count) of
            (printed', r) \<Rightarrow> (printed @ printed', r)))"

text \<open>
  \<^verbatim>\<open>main\<close>: the text printed and the value returned, which is the exit status
  of the process. An exception that reaches \<^verbatim>\<open>main\<close>, from
  \<^verbatim>\<open>find_test_cases\<close> or from \<^verbatim>\<open>run_test\<close>, has no handler: the process
  ends in \<^verbatim>\<open>std::terminate\<close> and \<^verbatim>\<open>main\<close> returns nothing.
\<close>

definition main :: "node \<Rightarrow> solution \<Rightarrow> (nat \<Rightarrow> int) \<Rightarrow> string \<times> (thrown + int)" where
  "main tests solve uninit =
    (let started = (if FULL_LOGGING
                    then print_colored ''--- Starting C++ Tester ---'' ''bold'' @ endl
                    else [])
     in case find_test_cases tests TESTS_DIR of
          (found, Inl e) \<Rightarrow> (started @ found, Inl e)
        | (found, Inr test_cases) \<Rightarrow>
            if test_cases = []
            then (started @ found @ ''No test cases found in '' @ [CHR 0x27] @ TESTS_DIR @ [CHR 0x27]
                  @ ''.'' @ endl,
                  Inr 0)
            else (case run_tests tests solve uninit 0 test_cases 0 of
                    (printed, Inl e) \<Rightarrow> (started @ found @ printed, Inl e)
                  | (printed, Inr passed_count) \<Rightarrow>
                      let heading = (if FULL_LOGGING
                                     then endl @ print_colored ''--- Test Summary ---'' ''bold'' @ endl
                                     else []);
                          total_count = int (length test_cases);
                          summary_color = (if passed_count = total_count then ''green'' else ''red'')
                      in (started @ found @ printed @ heading
                          @ print_colored (''Passed '' @ to_string passed_count @ '' out of ''
                                           @ to_string total_count @ '' tests.'') summary_color
                          @ endl,
                          Inr (if passed_count = total_count then 0 else 1))))"

subsection \<open>Fixtures\<close>

text \<open>A readable regular file with the given bytes.\<close>

abbreviation regular :: "string \<Rightarrow> dir_entry" where
  "regular bytes \<equiv> \<lparr>regular_file = True, contents = Some bytes\<rparr>"

section \<open>Properties\<close>

subsection \<open>Trimming\<close>

lemma rfind_if_None_iff: "rfind_if P s = None \<longleftrightarrow> (\<forall>c\<in>set s. \<not> P c)"
  by (induction s) (auto split: option.splits)

lemma rfind_if_take:
  "(case rfind_if P s of None \<Rightarrow> [] | Some i \<Rightarrow> take (Suc i) s)
     = rev (dropWhile (\<lambda>c. \<not> P c) (rev s))"
proof (induction s)
  case Nil
  show ?case by simp
next
  case (Cons c cs)
  show ?case
  proof (cases "rfind_if P cs")
    case None
    then have all: "\<forall>x\<in>set (rev cs). \<not> P x"
      by (simp add: rfind_if_None_iff)
    have eq: "dropWhile (\<lambda>c. \<not> P c) (rev cs @ [c]) = dropWhile (\<lambda>c. \<not> P c) [c]"
      by (rule dropWhile_append2) (use all in blast)
    have "rev (dropWhile (\<lambda>c. \<not> P c) (rev (c # cs))) = (if P c then [c] else [])"
      unfolding rev.simps eq by simp
    with None show ?thesis by simp
  next
    case (Some i)
    then have "\<exists>x\<in>set (rev cs). P x"
      using rfind_if_None_iff [of P cs] by auto
    then have "dropWhile (\<lambda>c. \<not> P c) (rev cs @ [c]) = dropWhile (\<lambda>c. \<not> P c) (rev cs) @ [c]"
      by (auto simp: dropWhile_append1)
    with Some Cons.IH show ?thesis by simp
  qed
qed

lemma trim_trailing_rev:
  "trim_trailing s = rev (dropWhile (\<lambda>c. c \<in> set TRIM_CHARS) (rev s))"
  using rfind_if_take [where P = "\<lambda>c. c \<notin> set TRIM_CHARS" and s = s]
  by (simp add: trim_trailing_def find_last_not_of_def erase_def split: option.splits)

lemma set_TRIM_CHARS: "set TRIM_CHARS = {CHR '' '', CHR 0x09, CHR 0x0D, CHR 0x0A}"
  by (auto simp: TRIM_CHARS_def)

lemma trim_trailing_decompose:
  "s = trim_trailing s @ rev (takeWhile (\<lambda>c. c \<in> set TRIM_CHARS) (rev s))"
proof -
  have "rev s = takeWhile (\<lambda>c. c \<in> set TRIM_CHARS) (rev s) @ dropWhile (\<lambda>c. c \<in> set TRIM_CHARS) (rev s)"
    by simp
  then have "rev (rev s) = rev (dropWhile (\<lambda>c. c \<in> set TRIM_CHARS) (rev s)) @ rev (takeWhile (\<lambda>c. c \<in> set TRIM_CHARS) (rev s))"
    by (metis rev_append)
  then show ?thesis by (simp add: trim_trailing_rev)
qed

lemma trim_trailing_last:
  "trim_trailing s = [] \<or> last (trim_trailing s) \<notin> set TRIM_CHARS"
proof (cases "dropWhile (\<lambda>c. c \<in> set TRIM_CHARS) (rev s)")
  case Nil
  then show ?thesis by (simp add: trim_trailing_rev)
next
  case (Cons x xs)
  then have "x \<notin> set TRIM_CHARS"
    using hd_dropWhile [of "\<lambda>c. c \<in> set TRIM_CHARS" "rev s"] by auto
  with Cons show ?thesis by (simp add: trim_trailing_rev)
qed

lemma trim_trailing_id:
  assumes "s = [] \<or> last s \<notin> set TRIM_CHARS"
  shows "trim_trailing s = s"
proof (cases s rule: rev_cases)
  case Nil
  then show ?thesis by (simp add: trim_trailing_rev)
next
  case (snoc ys y)
  with assms have "y \<notin> set TRIM_CHARS" by simp
  with snoc show ?thesis by (simp add: trim_trailing_rev)
qed

lemma trim_trailing_append_ws:
  assumes "set t \<subseteq> set TRIM_CHARS"
  shows "trim_trailing (s @ t) = trim_trailing s"
proof -
  have "dropWhile (\<lambda>c. c \<in> set TRIM_CHARS) (rev t @ rev s) = dropWhile (\<lambda>c. c \<in> set TRIM_CHARS) (rev s)"
    using assms by (intro dropWhile_append2) auto
  then show ?thesis by (simp add: trim_trailing_rev)
qed

text \<open>
  Claim C7. \<^verbatim>\<open>trim_trailing\<close> cuts off a suffix made of spaces, tabs, carriage
  returns and newlines only, so every character in front of that suffix stays
  where it is; what is left does not end with one of the four characters; and a
  string that does not end with one of them is returned as it is.
\<close>

theorem trim_trailing_only_trailing_whitespace:
  "(\<exists>t. s = trim_trailing s @ t \<and> set t \<subseteq> {CHR '' '', CHR 0x09, CHR 0x0D, CHR 0x0A})
   \<and> (trim_trailing s = [] \<or> last (trim_trailing s) \<notin> {CHR '' '', CHR 0x09, CHR 0x0D, CHR 0x0A})
   \<and> ((s = [] \<or> last s \<notin> {CHR '' '', CHR 0x09, CHR 0x0D, CHR 0x0A}) \<longrightarrow> trim_trailing s = s)"
proof (intro conjI impI)
  have "set (rev (takeWhile (\<lambda>c. c \<in> set TRIM_CHARS) (rev s))) \<subseteq> set TRIM_CHARS"
    using set_takeWhileD [of _ "\<lambda>c. c \<in> set TRIM_CHARS" "rev s"] by auto
  with trim_trailing_decompose [of s]
  show "\<exists>t. s = trim_trailing s @ t \<and> set t \<subseteq> {CHR '' '', CHR 0x09, CHR 0x0D, CHR 0x0A}"
    unfolding set_TRIM_CHARS by blast
next
  show "trim_trailing s = [] \<or> last (trim_trailing s) \<notin> {CHR '' '', CHR 0x09, CHR 0x0D, CHR 0x0A}"
    using trim_trailing_last [of s] unfolding set_TRIM_CHARS .
next
  assume "s = [] \<or> last s \<notin> {CHR '' '', CHR 0x09, CHR 0x0D, CHR 0x0A}"
  then show "trim_trailing s = s"
    using trim_trailing_id [of s] unfolding set_TRIM_CHARS by blast
qed

theorem trim_trailing_only_trailing_whitespace_witness:
  "last ('' a'' @ [CHR 0x09] @ ''b'') \<notin> {CHR '' '', CHR 0x09, CHR 0x0D, CHR 0x0A}
   \<and> trim_trailing ('' a'' @ [CHR 0x09] @ ''b'') = '' a'' @ [CHR 0x09] @ ''b''"
proof -
  have h: "last ('' a'' @ [CHR 0x09] @ ''b'') \<notin> {CHR '' '', CHR 0x09, CHR 0x0D, CHR 0x0A}"
    by simp
  with trim_trailing_only_trailing_whitespace [of "'' a'' @ [CHR 0x09] @ ''b''"]
  have "trim_trailing ('' a'' @ [CHR 0x09] @ ''b'') = '' a'' @ [CHR 0x09] @ ''b''"
    by blast
  with h show ?thesis by blast
qed

subsection \<open>Decimal text of integers\<close>

lemma of_char_digit_char: "d < 10 \<Longrightarrow> (of_char (digit_char d) :: nat) = 48 + d"
  by (simp add: digit_char_def)

lemma isdigit_digit_char: "d < 10 \<Longrightarrow> isdigit (digit_char d)"
  by (simp add: isdigit_def of_char_digit_char)

lemma digit_val_digit_char: "d < 10 \<Longrightarrow> digit_val (digit_char d) = d"
  by (simp add: digit_val_def of_char_digit_char)

lemma isdigit_not_isspace: "isdigit c \<Longrightarrow> \<not> isspace c"
  by (auto simp: isdigit_def isspace_def)

lemma isdigit_not_sign: "isdigit c \<Longrightarrow> c \<noteq> CHR ''-'' \<and> c \<noteq> CHR ''+''"
  by (auto simp: isdigit_def)

lemma digits_value_snoc: "digits_value (ds @ [c]) = 10 * digits_value ds + digit_val c"
  by (simp add: digits_value_def)

lemma digits_of_isdigit: "\<forall>c\<in>set (digits_of n). isdigit c"
proof (induction n rule: digits_of.induct)
  case (1 n)
  show ?case
  proof (cases "n < 10")
    case True
    then show ?thesis by (subst digits_of.simps) (simp add: isdigit_digit_char)
  next
    case False
    with "1" show ?thesis by (subst digits_of.simps) (simp add: isdigit_digit_char)
  qed
qed

lemma digits_of_nonempty: "digits_of n \<noteq> []"
  by (subst digits_of.simps) simp

lemma digits_value_digits_of: "digits_value (digits_of n) = n"
proof (induction n rule: digits_of.induct)
  case (1 n)
  show ?case
  proof (cases "n < 10")
    case True
    then show ?thesis
      by (subst digits_of.simps) (simp add: digits_value_def digit_val_digit_char)
  next
    case False
    with "1" show ?thesis
      by (subst digits_of.simps) (simp add: digits_value_snoc digit_val_digit_char)
  qed
qed

lemma takeWhile_isdigit_digits_of: "takeWhile isdigit (digits_of n) = digits_of n"
  using digits_of_isdigit [of n] by (simp add: takeWhile_eq_all_conv)

lemma hd_digits_of: "\<exists>c cs. digits_of n = c # cs \<and> isdigit c"
  using digits_of_nonempty [of n] digits_of_isdigit [of n] by (cases "digits_of n") auto

lemma stoi_to_string:
  assumes "INT_MIN \<le> v" and "v \<le> INT_MAX"
  shows "stoi (to_string v) = Inr v"
proof (cases "v < 0")
  case True
  have "\<not> isspace CHR ''-''" by (simp add: isspace_def)
  with True assms show ?thesis
    by (simp add: stoi_def to_string_def takeWhile_isdigit_digits_of digits_of_nonempty
        digits_value_digits_of)
next
  case False
  obtain c cs where ds: "digits_of (nat v) = c # cs" and c: "isdigit c"
    using hd_digits_of by blast
  have tw: "takeWhile isdigit (c # cs) = c # cs"
    using takeWhile_isdigit_digits_of [of "nat v"] ds by simp
  have dv: "digits_value (c # cs) = nat v"
    using digits_value_digits_of [of "nat v"] ds by simp
  from False assms c show ?thesis
    using isdigit_not_isspace [OF c] isdigit_not_sign [OF c]
    by (simp add: stoi_def to_string_def ds tw dv del: takeWhile.simps)
qed

lemma stoi_Inr_iff:
  "stoi s = Inr v \<longleftrightarrow>
    takeWhile isdigit (snd (strip_sign (dropWhile isspace s))) \<noteq> []
    \<and> v = (if fst (strip_sign (dropWhile isspace s))
             then - int (digits_value (takeWhile isdigit (snd (strip_sign (dropWhile isspace s)))))
             else int (digits_value (takeWhile isdigit (snd (strip_sign (dropWhile isspace s))))))
    \<and> INT_MIN \<le> v \<and> v \<le> INT_MAX"
proof -
  obtain neg r where sr: "strip_sign (dropWhile isspace s) = (neg, r)"
    by (cases "strip_sign (dropWhile isspace s)")
  show ?thesis
    unfolding stoi_def sr Let_def prod.case fst_conv snd_conv
    by (cases "takeWhile isdigit r = []"; cases neg) auto
qed

lemma stoi_range: "stoi s = Inr v \<Longrightarrow> INT_MIN \<le> v \<and> v \<le> INT_MAX"
  by (simp add: stoi_Inr_iff)

lemma to_string_inj_on_int:
  assumes "INT_MIN \<le> v" and "v \<le> INT_MAX" and "INT_MIN \<le> w" and "w \<le> INT_MAX"
    and eq: "to_string v = to_string w"
  shows "v = w"
proof -
  have "(Inr v :: stoi_error + int) = stoi (to_string v)"
    using assms(1,2) by (rule stoi_to_string [symmetric])
  also have "\<dots> = stoi (to_string w)"
    by (simp only: eq)
  also have "\<dots> = Inr w"
    using assms(3,4) by (rule stoi_to_string)
  finally show ?thesis by (simp only: sum.inject)
qed

subsection \<open>Discovery\<close>

lemma collect_case_numbers_map_filter:
  "collect_case_numbers entries acc = acc @ List.map_filter case_number_of_entry entries"
  by (induction entries arbitrary: acc) (auto simp: List.map_filter_simps split: option.splits)

lemma case_number_of_entry_range:
  "case_number_of_entry entry = Some v \<Longrightarrow> INT_MIN \<le> v \<and> v \<le> INT_MAX"
  by (auto simp: case_number_of_entry_def dest: stoi_range split: if_splits sum.splits)

lemma collected_range:
  "v \<in> set (List.map_filter case_number_of_entry entries) \<Longrightarrow> INT_MIN \<le> v \<and> v \<le> INT_MAX"
  by (induction entries) (auto split: option.splits dest: case_number_of_entry_range)

lemma map_stoi_to_string:
  "\<forall>v\<in>set ns. INT_MIN \<le> v \<and> v \<le> INT_MAX \<Longrightarrow> map stoi (map to_string ns) = map Inr ns"
  by (induction ns) (simp_all add: stoi_to_string)

lemma distinct_map_to_string:
  assumes "\<forall>v\<in>set ns. INT_MIN \<le> v \<and> v \<le> INT_MAX"
  shows "distinct (map to_string ns) \<longleftrightarrow> distinct ns"
proof -
  have "inj_on to_string (set ns)"
    using assms by (auto intro!: inj_onI to_string_inj_on_int)
  then show ?thesis by (simp add: distinct_map)
qed

lemma find_test_cases_cases:
  "find_test_cases tests dir
    = (case tests of
         Absent \<Rightarrow> not_found dir
       | NonDirectory \<Rightarrow> not_found dir
       | Directory entries \<Rightarrow>
           ([], Inr (map to_string (sort (List.map_filter case_number_of_entry entries))))
       | StatusFails what \<Rightarrow> ([], Inl (StdException what))
       | IterationFails entries what \<Rightarrow> ([], Inl (StdException what)))"
  by (cases tests) (simp_all add: find_test_cases_def collect_case_numbers_map_filter)

lemma find_test_cases_names:
  assumes "snd (find_test_cases tests dir) = Inr names"
  shows "names = map to_string (sort (List.map_filter case_number_of_entry
            (case directory_iterator tests of Inr entries \<Rightarrow> entries | Inl e \<Rightarrow> [])))"
  using assms by (cases tests) (simp_all add: find_test_cases_cases not_found_def)

text \<open>
  Claim C2, as amended. Whenever \<^verbatim>\<open>find_test_cases\<close> returns, the names
  returned are the decimal texts of a sorted list of integers, and
  \<^verbatim>\<open>std::stoi\<close> reads these integers back from them; the list holds one
  number for every entry that the loop accepts, so the names are free of
  duplicates exactly when no two accepted entries have the same number.
\<close>

theorem find_test_cases_sorted_numbers:
  assumes "snd (find_test_cases tests dir) = Inr names"
  shows "\<exists>ns. names = map to_string ns
      \<and> map stoi names = map Inr ns
      \<and> sorted ns
      \<and> mset ns = mset (List.map_filter case_number_of_entry
                          (case directory_iterator tests of Inr entries \<Rightarrow> entries | Inl e \<Rightarrow> []))
      \<and> (distinct names
           \<longleftrightarrow> distinct (List.map_filter case_number_of_entry
                          (case directory_iterator tests of Inr entries \<Rightarrow> entries | Inl e \<Rightarrow> [])))"
proof -
  define visited where
    "visited = (case directory_iterator tests of Inr entries \<Rightarrow> entries | Inl e \<Rightarrow> [])"
  define collected where "collected = List.map_filter case_number_of_entry visited"
  define ns where "ns = sort collected"
  have range: "\<forall>v\<in>set ns. INT_MIN \<le> v \<and> v \<le> INT_MAX"
    using collected_range [of _ visited] by (simp add: ns_def collected_def)
  have names: "names = map to_string ns"
    using find_test_cases_names [OF assms] by (simp add: ns_def collected_def visited_def)
  have parsed: "map stoi names = map Inr ns"
    unfolding names using range by (rule map_stoi_to_string)
  have "distinct (map to_string ns) \<longleftrightarrow> distinct ns"
    using range by (rule distinct_map_to_string)
  then have dist: "distinct names \<longleftrightarrow> distinct collected"
    by (simp add: names ns_def)
  have "sorted ns" and "mset ns = mset collected"
    by (simp_all add: ns_def)
  with names parsed dist show ?thesis
    unfolding collected_def visited_def by blast
qed

theorem find_test_cases_sorted_numbers_witness:
  "snd (find_test_cases
          (Directory [(''10.in'', regular ''a''), (''x.in'', regular ''b''), (''2.in'', regular ''c'')])
          TESTS_DIR) = Inr [''2'', ''10'']
   \<and> (\<exists>ns. [''2'', ''10''] = map to_string ns
          \<and> map Inr ns = [Inr 2, Inr 10 :: stoi_error + int]
          \<and> sorted ns)"
proof -
  let ?tests = "Directory [(''10.in'', regular ''a''), (''x.in'', regular ''b''),
                           (''2.in'', regular ''c'')]"
  have names: "snd (find_test_cases ?tests TESTS_DIR) = Inr [''2'', ''10'']"
    by code_simp
  have parsed: "map stoi [''2'', ''10''] = [Inr 2, Inr 10]"
    by code_simp
  from find_test_cases_sorted_numbers [OF names]
  obtain ns where "[''2'', ''10''] = map to_string ns"
    and "map stoi [''2'', ''10''] = map Inr ns"
    and "sorted ns"
    by (elim exE conjE) (rule that; assumption)
  then have "\<exists>ns. [''2'', ''10''] = map to_string ns
          \<and> map Inr ns = [Inr 2, Inr 10 :: stoi_error + int]
          \<and> sorted ns"
    unfolding parsed by (intro exI [of _ ns]) simp
  with names show ?thesis by blast
qed

text \<open>
  Claim C2 as stated fails: two file names with the same number give the same
  name twice.
\<close>

theorem find_test_cases_duplicate_names:
  "snd (find_test_cases
          (Directory [(''1.in'', regular ''a''), (''01.in'', regular ''b'')])
          TESTS_DIR) = Inr [''1'', ''1'']
   \<and> \<not> distinct [''1'', ''1'' :: string]"
  by code_simp

text \<open>
  Claim C3 fails on a stem that begins with digits: \<^verbatim>\<open>std::stoi\<close> reads the
  digits in front and the file is taken as a test case.
\<close>

theorem find_test_cases_digit_prefix_stem:
  "snd (find_test_cases (Directory [(''1abc.in'', regular ''a'')]) TESTS_DIR) = Inr [''1'']"
  by code_simp

theorem find_test_cases_digit_prefix_stem_witness:
  "\<exists>names. snd (find_test_cases (Directory [(''1abc.in'', regular ''a'')]) TESTS_DIR) = Inr names
     \<and> ''1'' \<in> set names"
  using find_test_cases_digit_prefix_stem by simp

subsection \<open>Running the tests\<close>

lemma read_file_content_exists:
  "read_file_content tests p = Inr content \<Longrightarrow> path_exists tests p"
  by (auto simp: read_file_content_def ifstream_open_def path_exists_def split: option.splits)

lemma run_test_input_missing:
  assumes "ifstream_open tests (path_append TESTS_DIR (case_name @ ''.in'')) = None"
  shows "run_test tests solve uninit case_name
    = (print_colored (WARNING_SIGN @ '' SKIPPED (Input file not found)'') ''bold'' @ endl, Inr False)"
  using assms by (simp add: run_test_def run_test_try_def FULL_LOGGING_def)

lemma run_test_output_missing:
  assumes "ifstream_open tests (path_append TESTS_DIR (case_name @ ''.in'')) = Some input_stream"
    and "\<not> path_exists tests (path_append TESTS_DIR (case_name @ ''.out''))"
  shows "run_test tests solve uninit case_name
    = (print_colored (WARNING_SIGN @ '' SKIPPED (Output file not found)'') ''bold'' @ endl, Inr False)"
  using assms by (simp add: run_test_def run_test_try_def FULL_LOGGING_def split: prod.splits)

lemma run_test_output_unreadable:
  assumes "ifstream_open tests (path_append TESTS_DIR (case_name @ ''.in'')) = Some input_stream"
    and "path_exists tests (path_append TESTS_DIR (case_name @ ''.out''))"
    and "read_file_content tests (path_append TESTS_DIR (case_name @ ''.out'')) = Inl e"
  shows "run_test tests solve uninit case_name
    = (print_colored (CROSS_MARK @ '' FAILED'') ''red'' @ endl
       @ ''   - Error: An exception occurred: ''
       @ ''Could not open file: '' @ path_append TESTS_DIR (case_name @ ''.out'') @ endl,
       Inr False)"
  using assms
  by (auto simp: run_test_def run_test_try_def FULL_LOGGING_def read_file_content_def
      split: prod.splits option.splits)

lemma run_test_solution:
  assumes "ifstream_open tests (path_append TESTS_DIR (case_name @ ''.in'')) = Some input_stream"
    and "read_file_content tests (path_append TESTS_DIR (case_name @ ''.out'')) = Inr content"
  shows "run_test tests solve uninit case_name
    = (case solve (snd (getline input_stream []))
                  (snd (extract_int (fst (getline input_stream [])) uninit)) of
         Inr result \<Rightarrow> ([], Inr (trim_trailing (to_string result) = trim_trailing content))
       | Inl (StdException what) \<Rightarrow>
           (print_colored (CROSS_MARK @ '' FAILED'') ''red'' @ endl
            @ ''   - Error: An exception occurred: '' @ what @ endl,
            Inr False)
       | Inl OtherException \<Rightarrow> ([], Inl OtherException))"
proof -
  obtain stream1 input_str where gl: "getline input_stream [] = (stream1, input_str)"
    by (cases "getline input_stream []")
  obtain stream2 input_int where ex: "extract_int stream1 uninit = (stream2, input_int)"
    by (cases "extract_int stream1 uninit")
  have body: "run_test_try tests solve uninit (path_append TESTS_DIR (case_name @ ''.in''))
                (path_append TESTS_DIR (case_name @ ''.out''))
    = (case solve input_str input_int of
         Inl e \<Rightarrow> ([], Inl e)
       | Inr result \<Rightarrow> ([], Inr (trim_trailing (to_string result) = trim_trailing content)))"
    using assms read_file_content_exists [OF assms(2)]
    by (simp add: run_test_try_def gl ex FULL_LOGGING_def Let_def split: sum.splits)
  show ?thesis
    unfolding run_test_def Let_def body
    by (simp add: gl ex FULL_LOGGING_def split: sum.splits thrown.splits)
qed

lemma run_test_no_std_exception:
  "snd (run_test tests solve uninit case_name) \<noteq> Inl (StdException what)"
  by (simp add: run_test_def split: prod.splits sum.splits thrown.splits)


lemma run_tests_step:
  assumes "snd (run_test tests solve (uninit k) c) = Inr b"
  shows "run_tests tests solve uninit k (c # cs) p
    = (fst (run_test tests solve (uninit k) c)
         @ fst (run_tests tests solve uninit (Suc k) cs (if b then p + 1 else p)),
       snd (run_tests tests solve uninit (Suc k) cs (if b then p + 1 else p)))"
  using assms by (cases "run_test tests solve (uninit k) c") (simp split: prod.splits)

lemma run_tests_thrown:
  assumes "snd (run_test tests solve (uninit k) c) = Inl e"
  shows "run_tests tests solve uninit k (c # cs) p = (fst (run_test tests solve (uninit k) c), Inl e)"
  using assms by (cases "run_test tests solve (uninit k) c") simp

lemma run_test_result_cases:
  obtains b where "snd (run_test tests solve uninit c) = Inr b"
  | "snd (run_test tests solve uninit c) = Inl OtherException"
proof (cases "snd (run_test tests solve uninit c)")
  case (Inl e)
  with run_test_no_std_exception [of tests solve uninit c] that(2) show ?thesis
    by (cases e) auto
next
  case (Inr b)
  with that(1) show ?thesis by blast
qed

subsection \<open>No test case, a missing expected output, and the round trip\<close>

lemma find_test_cases_printed:
  "snd (find_test_cases tests dir) = Inr names \<Longrightarrow> names \<noteq> []
    \<Longrightarrow> fst (find_test_cases tests dir) = []"
  by (cases tests) (auto simp: find_test_cases_cases not_found_def)

lemma to_string_0: "to_string 0 = ''0''"
  by code_simp

lemma to_string_1: "to_string 1 = ''1''"
  by code_simp

lemma to_string_42: "to_string 42 = ''42''"
  by code_simp

lemma main_single_case:
  assumes "snd (find_test_cases tests TESTS_DIR) = Inr [c]"
    and "snd (run_test tests solve (uninit 0) c) = Inr b"
  shows "main tests solve uninit
    = (fst (run_test tests solve (uninit 0) c)
       @ print_colored (''Passed '' @ (if b then ''1'' else ''0'') @ '' out of 1 tests.'')
           (if b then ''green'' else ''red'') @ endl,
       Inr (if b then 0 else 1))"
proof -
  have found: "find_test_cases tests TESTS_DIR = ([], Inr [c])"
    using assms(1) find_test_cases_printed [OF assms(1)]
    by (cases "find_test_cases tests TESTS_DIR") simp
  have loop: "run_tests tests solve uninit 0 [c] 0
    = (fst (run_test tests solve (uninit 0) c), Inr (if b then 1 else 0))"
    using run_tests_step [where uninit = uninit and k = 0 and cs = "[]" and p = 0, OF assms(2)]
    by simp
  show ?thesis
    unfolding main_def found Let_def prod.case sum.case loop
    by (cases b) (simp_all add: FULL_LOGGING_def to_string_0 to_string_1)
qed

text \<open>
  Claim C9. A directory that is absent or not a directory yields no test case;
  and whenever no test case is found, \<^verbatim>\<open>main\<close> prints the notice after what
  discovery printed and returns 0.
\<close>

theorem main_no_test_cases:
  "(fs_exists tests = Inr False \<or> is_directory tests = Inr False
      \<longrightarrow> snd (find_test_cases tests TESTS_DIR) = Inr [])
   \<and> (snd (find_test_cases tests TESTS_DIR) = Inr [] \<longrightarrow>
        main tests solve uninit
          = (fst (find_test_cases tests TESTS_DIR)
             @ ''No test cases found in '' @ [CHR 0x27] @ ''tests/'' @ [CHR 0x27] @ ''.'' @ [CHR 0x0A],
             Inr 0))"
proof (intro conjI impI)
  assume "fs_exists tests = Inr False \<or> is_directory tests = Inr False"
  then show "snd (find_test_cases tests TESTS_DIR) = Inr []"
    by (cases tests) (simp_all add: find_test_cases_cases not_found_def)
next
  assume "snd (find_test_cases tests TESTS_DIR) = Inr []"
  then show "main tests solve uninit
          = (fst (find_test_cases tests TESTS_DIR)
             @ ''No test cases found in '' @ [CHR 0x27] @ ''tests/'' @ [CHR 0x27] @ ''.'' @ [CHR 0x0A],
             Inr 0)"
    by (cases "find_test_cases tests TESTS_DIR")
       (simp add: main_def FULL_LOGGING_def TESTS_DIR_def endl_def)
qed

theorem main_no_test_cases_witness:
  "snd (find_test_cases Absent TESTS_DIR) = Inr []
   \<and> main Absent (\<lambda>text n. Inr n) (\<lambda>k. 0)
       = (print_colored (CROSS_MARK @ '' Error: Test directory '' @ [CHR 0x27] @ ''tests/''
                         @ [CHR 0x27] @ '' not found.'') ''red'' @ [CHR 0x0A]
          @ ''No test cases found in '' @ [CHR 0x27] @ ''tests/'' @ [CHR 0x27] @ ''.'' @ [CHR 0x0A],
          Inr 0)
   \<and> snd (find_test_cases (Directory [(''notes.txt'', regular ''a'')]) TESTS_DIR) = Inr []
   \<and> main (Directory [(''notes.txt'', regular ''a'')]) (\<lambda>text n. Inr n) (\<lambda>k. 0)
       = (''No test cases found in '' @ [CHR 0x27] @ ''tests/'' @ [CHR 0x27] @ ''.'' @ [CHR 0x0A],
          Inr 0)"
proof -
  have a: "fs_exists Absent = Inr False \<or> is_directory Absent = Inr False"
    by simp
  have fa: "fst (find_test_cases Absent TESTS_DIR)
    = print_colored (CROSS_MARK @ '' Error: Test directory '' @ [CHR 0x27] @ ''tests/''
                     @ [CHR 0x27] @ '' not found.'') ''red'' @ [CHR 0x0A]"
    by (simp add: find_test_cases_cases not_found_def TESTS_DIR_def endl_def)
  have d: "find_test_cases (Directory [(''notes.txt'', regular ''a'')]) TESTS_DIR = ([], Inr [])"
    by code_simp
  from a main_no_test_cases [of Absent "\<lambda>text n. Inr n" "\<lambda>k. 0"]
  have "snd (find_test_cases Absent TESTS_DIR) = Inr []"
    and "main Absent (\<lambda>text n. Inr n) (\<lambda>k. 0)
          = (fst (find_test_cases Absent TESTS_DIR)
             @ ''No test cases found in '' @ [CHR 0x27] @ ''tests/'' @ [CHR 0x27] @ ''.'' @ [CHR 0x0A],
             Inr 0)"
    by blast+
  moreover from d main_no_test_cases [of "Directory [(''notes.txt'', regular ''a'')]" "\<lambda>text n. Inr n" "\<lambda>k. 0"]
  have "main (Directory [(''notes.txt'', regular ''a'')]) (\<lambda>text n. Inr n) (\<lambda>k. 0)
       = (''No test cases found in '' @ [CHR 0x27] @ ''tests/'' @ [CHR 0x27] @ ''.'' @ [CHR 0x0A],
          Inr 0)"
    by simp
  ultimately show ?thesis
    using d by (simp add: fa)
qed

text \<open>
  Claim C6. Without an expected-output file \<^verbatim>\<open>run_test\<close> prints one of its two
  SKIPPED lines, never a FAILED line, and returns false; the loop of \<^verbatim>\<open>main\<close>
  goes on with \<^verbatim>\<open>passed_count\<close> as it was; and when the case is the only one
  found, \<^verbatim>\<open>main\<close> reports 0 out of 1 and returns 1.
\<close>

theorem run_test_missing_output_skipped:
  assumes "\<not> path_exists tests (path_append TESTS_DIR (case_name @ ''.out''))"
  shows "run_test tests solve (uninit k) case_name
      = (print_colored
           (WARNING_SIGN @
            (if ifstream_open tests (path_append TESTS_DIR (case_name @ ''.in'')) = None
             then '' SKIPPED (Input file not found)''
             else '' SKIPPED (Output file not found)''))
           ''bold'' @ endl,
         Inr False)
    \<and> run_tests tests solve uninit k (case_name # test_cases) passed_count
      = (fst (run_test tests solve (uninit k) case_name)
           @ fst (run_tests tests solve uninit (Suc k) test_cases passed_count),
         snd (run_tests tests solve uninit (Suc k) test_cases passed_count))
    \<and> (snd (find_test_cases tests TESTS_DIR) = Inr [case_name] \<longrightarrow>
         main tests solve uninit
           = (fst (run_test tests solve (uninit 0) case_name)
              @ print_colored ''Passed 0 out of 1 tests.'' ''red'' @ endl,
              Inr 1))"
proof -
  have skipped: "run_test tests solve u case_name
      = (print_colored
           (WARNING_SIGN @
            (if ifstream_open tests (path_append TESTS_DIR (case_name @ ''.in'')) = None
             then '' SKIPPED (Input file not found)''
             else '' SKIPPED (Output file not found)''))
           ''bold'' @ endl,
         Inr False)" for u
  proof (cases "ifstream_open tests (path_append TESTS_DIR (case_name @ ''.in''))")
    case None
    then show ?thesis by (simp add: run_test_input_missing)
  next
    case (Some input_stream)
    then show ?thesis using assms by (simp add: run_test_output_missing)
  qed
  then have false: "snd (run_test tests solve (uninit j) case_name) = Inr False" for j
    by simp
  have loop: "run_tests tests solve uninit k (case_name # test_cases) passed_count
      = (fst (run_test tests solve (uninit k) case_name)
           @ fst (run_tests tests solve uninit (Suc k) test_cases passed_count),
         snd (run_tests tests solve uninit (Suc k) test_cases passed_count))"
    using run_tests_step [where uninit = uninit and k = k, OF false] by simp
  have only: "main tests solve uninit
           = (fst (run_test tests solve (uninit 0) case_name)
              @ print_colored ''Passed 0 out of 1 tests.'' ''red'' @ endl,
              Inr 1)"
    if "snd (find_test_cases tests TESTS_DIR) = Inr [case_name]"
    using main_single_case [OF that false] by simp
  from skipped loop only show ?thesis by blast
qed


theorem run_test_missing_output_skipped_witness:
  "run_test (Directory [(''2.in'', regular (''hello'' @ endl @ ''5'' @ endl))])
      (\<lambda>text n. Inr n) 0 ''2''
     = (print_colored (WARNING_SIGN @ '' SKIPPED (Output file not found)'') ''bold'' @ endl,
        Inr False)
   \<and> main (Directory [(''2.in'', regular (''hello'' @ endl @ ''5'' @ endl))])
      (\<lambda>text n. Inr n) (\<lambda>k. 0)
     = (print_colored (WARNING_SIGN @ '' SKIPPED (Output file not found)'') ''bold'' @ endl
        @ print_colored ''Passed 0 out of 1 tests.'' ''red'' @ endl,
        Inr 1)"
proof -
  let ?tests = "Directory [(''2.in'', regular (''hello'' @ endl @ ''5'' @ endl))]"
  have missing: "\<not> path_exists ?tests (path_append TESTS_DIR (''2'' @ ''.out''))"
    by code_simp
  have opened: "ifstream_open ?tests (path_append TESTS_DIR (''2'' @ ''.in'')) \<noteq> None"
    by code_simp
  have found: "snd (find_test_cases ?tests TESTS_DIR) = Inr [''2'']"
    by code_simp
  note skipped = run_test_missing_output_skipped
    [OF missing, where solve = "\<lambda>text n. Inr n" and uninit = "\<lambda>k. 0" and k = 0
       and test_cases = "[]" and passed_count = 0, unfolded if_not_P [OF opened]]
  from skipped have once: "run_test ?tests (\<lambda>text n. Inr n) 0 ''2''
     = (print_colored (WARNING_SIGN @ '' SKIPPED (Output file not found)'') ''bold'' @ endl,
        Inr False)"
    by (rule conjunct1)
  from skipped found have whole: "main ?tests (\<lambda>text n. Inr n) (\<lambda>k. 0)
     = (fst (run_test ?tests (\<lambda>text n. Inr n) 0 ''2'')
        @ print_colored ''Passed 0 out of 1 tests.'' ''red'' @ endl,
        Inr 1)"
    by blast
  show ?thesis
    by (simp only: whole once fst_conv append_assoc simp_thms)
qed

text \<open>
  Claim C8. With an expected-output file that holds \<^verbatim>\<open>42\<close> and then any run of
  spaces, tabs, carriage returns and newlines, an input file that opens, and a
  solution that returns 42 for the text and the integer read from it, the two
  trimmed strings are equal and \<^verbatim>\<open>run_test\<close> returns true.
\<close>

theorem run_test_round_trip_42:
  assumes "ifstream_open tests (path_append TESTS_DIR (case_name @ ''.in'')) = Some input_stream"
    and "lookup_path tests (path_append TESTS_DIR (case_name @ ''.out'')) = Some out_entry"
    and "contents out_entry = Some (''42'' @ ws)"
    and "set ws \<subseteq> {CHR '' '', CHR 0x09, CHR 0x0D, CHR 0x0A}"
    and "solve (snd (getline input_stream []))
               (snd (extract_int (fst (getline input_stream [])) uninit)) = Inr 42"
  shows "trim_trailing (to_string 42) = ''42''
    \<and> trim_trailing (''42'' @ ws) = ''42''
    \<and> run_test tests solve uninit case_name = ([], Inr True)"
proof -
  have plain: "trim_trailing ''42'' = ''42''"
    by (rule trim_trailing_id) (simp add: TRIM_CHARS_def)
  have "set ws \<subseteq> set TRIM_CHARS"
    using assms(4) by (simp add: set_TRIM_CHARS)
  then have expected: "trim_trailing (''42'' @ ws) = ''42''"
    using trim_trailing_append_ws [of ws "''42''"] plain by simp
  have actual: "trim_trailing (to_string 42) = ''42''"
    using plain by (simp add: to_string_42)
  have "read_file_content tests (path_append TESTS_DIR (case_name @ ''.out'')) = Inr (''42'' @ ws)"
    using assms(2,3) by (simp add: read_file_content_def ifstream_open_def)
  from run_test_solution [OF assms(1) this, of solve uninit]
  have "run_test tests solve uninit case_name = ([], Inr True)"
    by (simp add: assms(5) expected actual del: append.simps)
  with actual expected show ?thesis by blast
qed

theorem run_test_round_trip_42_witness:
  "run_test (Directory [(''7.in'', regular (''hello'' @ endl @ ''5'' @ endl)),
                        (''7.out'', regular (''42'' @ [CHR 0x0D, CHR 0x0A, CHR 0x0A]))])
      (\<lambda>text n. Inr (n + 37)) 0 ''7''
     = ([], Inr True)"
proof -
  let ?tests = "Directory [(''7.in'', regular (''hello'' @ endl @ ''5'' @ endl)),
                           (''7.out'', regular (''42'' @ [CHR 0x0D, CHR 0x0A, CHR 0x0A]))]"
  let ?stream = "\<lparr>rest = ''hello'' @ endl @ ''5'' @ endl, eofbit = False, failbit = False\<rparr>"
  have a: "ifstream_open ?tests (path_append TESTS_DIR (''7'' @ ''.in'')) = Some ?stream"
    by code_simp
  have b: "lookup_path ?tests (path_append TESTS_DIR (''7'' @ ''.out''))
             = Some (regular (''42'' @ [CHR 0x0D, CHR 0x0A, CHR 0x0A]))"
    by code_simp
  have c: "contents (regular (''42'' @ [CHR 0x0D, CHR 0x0A, CHR 0x0A]))
             = Some (''42'' @ [CHR 0x0D, CHR 0x0A, CHR 0x0A])"
    by simp
  have d: "set [CHR 0x0D, CHR 0x0A, CHR 0x0A] \<subseteq> {CHR '' '', CHR 0x09, CHR 0x0D, CHR 0x0A}"
    by simp
  have e: "(\<lambda>text n. Inr (n + 37)) (snd (getline ?stream []))
             (snd (extract_int (fst (getline ?stream [])) 0)) = (Inr 42 :: thrown + int)"
    by code_simp
  from run_test_round_trip_42
    [where solve = "\<lambda>text n. Inr (n + 37)" and uninit = 0, OF a b c d e]
  show ?thesis
    by blast
qed

subsection \<open>The exit status\<close>

lemma run_tests_result:
  "snd (run_tests tests solve uninit k cs p)
    = (if \<exists>(j, c)\<in>set (enumerate k cs). snd (run_test tests solve (uninit j) c) = Inl OtherException
       then Inl OtherException
       else Inr (p + int (length (filter (\<lambda>(j, c). snd (run_test tests solve (uninit j) c) = Inr True)
                                    (enumerate k cs)))))"
proof (induction cs arbitrary: k p)
  case Nil
  show ?case by simp
next
  case (Cons c cs)
  show ?case
  proof (cases "snd (run_test tests solve (uninit k) c) = Inl OtherException")
    case True
    then have "snd (run_tests tests solve uninit k (c # cs) p) = Inl OtherException"
      using run_tests_thrown [where uninit = uninit and k = k] by simp
    with True show ?thesis by simp
  next
    case False
    then obtain b where b: "snd (run_test tests solve (uninit k) c) = Inr b"
      using run_test_result_cases [of tests solve "uninit k" c] by blast
    have "snd (run_tests tests solve uninit k (c # cs) p)
      = snd (run_tests tests solve uninit (Suc k) cs (if b then p + 1 else p))"
      using run_tests_step [where uninit = uninit and k = k, OF b] by simp
    then show ?thesis
      unfolding Cons.IH using b by (cases b) simp_all
  qed
qed

lemma main_result:
  "snd (main tests solve uninit)
    = (case snd (find_test_cases tests TESTS_DIR) of
         Inl e \<Rightarrow> Inl e
       | Inr test_cases \<Rightarrow>
           (case snd (run_tests tests solve uninit 0 test_cases 0) of
              Inl e \<Rightarrow> Inl e
            | Inr passed_count \<Rightarrow>
                Inr (if passed_count = int (length test_cases) then 0 else 1)))"
proof -
  obtain found r where f: "find_test_cases tests TESTS_DIR = (found, r)"
    by (cases "find_test_cases tests TESTS_DIR")
  show ?thesis
  proof (cases r)
    case (Inl e)
    with f show ?thesis by (simp add: main_def)
  next
    case (Inr test_cases)
    show ?thesis
    proof (cases "test_cases = []")
      case True
      with f Inr show ?thesis by (simp add: main_def)
    next
      case False
      with f Inr show ?thesis
        by (simp add: main_def Let_def split: prod.splits sum.splits)
    qed
  qed
qed

text \<open>
  Claim C1, as amended. When \<^verbatim>\<open>find_test_cases\<close> returns and no exception
  leaves \<^verbatim>\<open>run_test\<close>, \<^verbatim>\<open>main\<close> returns 0 if the number of calls of
  \<^verbatim>\<open>run_test\<close> that returned true equals the number of test cases found, and
  1 otherwise. When \<^verbatim>\<open>find_test_cases\<close> throws, or a call of \<^verbatim>\<open>run_test\<close>
  lets an exception through, \<^verbatim>\<open>main\<close> returns nothing: the exception ends the
  process.
\<close>

theorem main_exit_status:
  "snd (main tests solve uninit)
    = (case snd (find_test_cases tests TESTS_DIR) of
         Inl e \<Rightarrow> Inl e
       | Inr test_cases \<Rightarrow>
           let passed = length (filter (\<lambda>(k, c). snd (run_test tests solve (uninit k) c) = Inr True)
                                  (enumerate 0 test_cases))
           in if \<exists>(k, c)\<in>set (enumerate 0 test_cases).
                   snd (run_test tests solve (uninit k) c) = Inl OtherException
              then Inl OtherException
              else Inr (if passed = length test_cases then 0 else 1))"
  unfolding main_result run_tests_result Let_def by (simp split: sum.splits)

theorem main_exit_status_witness:
  "snd (main (Directory [(''1.in'', regular (''hello'' @ endl @ ''5'' @ endl)),
                         (''1.out'', regular (''10'' @ endl))])
          (\<lambda>text n. Inr (2 * n)) (\<lambda>k. 0)) = Inr 0
   \<and> snd (main (Directory [(''1.in'', regular (''hello'' @ endl @ ''5'' @ endl)),
                           (''1.out'', regular (''10'' @ endl)),
                           (''2.in'', regular (''world'' @ endl @ ''6'' @ endl))])
          (\<lambda>text n. Inr (2 * n)) (\<lambda>k. 0)) = Inr 1"
proof -
  let ?all = "Directory [(''1.in'', regular (''hello'' @ endl @ ''5'' @ endl)),
                         (''1.out'', regular (''10'' @ endl))]"
  let ?skip = "Directory [(''1.in'', regular (''hello'' @ endl @ ''5'' @ endl)),
                          (''1.out'', regular (''10'' @ endl)),
                          (''2.in'', regular (''world'' @ endl @ ''6'' @ endl))]"
  let ?solve = "\<lambda>(text :: string) (n :: int). (Inr (2 * n) :: thrown + int)"
  have a: "(case snd (find_test_cases ?all TESTS_DIR) of
         Inl e \<Rightarrow> Inl e
       | Inr test_cases \<Rightarrow>
           let passed = length (filter (\<lambda>(k, c). snd (run_test ?all ?solve ((\<lambda>k. 0) k) c) = Inr True)
                                  (enumerate 0 test_cases))
           in if \<exists>(k, c)\<in>set (enumerate 0 test_cases).
                   snd (run_test ?all ?solve ((\<lambda>k. 0) k) c) = Inl OtherException
              then Inl OtherException
              else Inr (if passed = length test_cases then 0 else 1)) = (Inr 0 :: thrown + int)"
    by code_simp
  have b: "(case snd (find_test_cases ?skip TESTS_DIR) of
         Inl e \<Rightarrow> Inl e
       | Inr test_cases \<Rightarrow>
           let passed = length (filter (\<lambda>(k, c). snd (run_test ?skip ?solve ((\<lambda>k. 0) k) c) = Inr True)
                                  (enumerate 0 test_cases))
           in if \<exists>(k, c)\<in>set (enumerate 0 test_cases).
                   snd (run_test ?skip ?solve ((\<lambda>k. 0) k) c) = Inl OtherException
              then Inl OtherException
              else Inr (if passed = length test_cases then 0 else 1)) = (Inr 1 :: thrown + int)"
    by code_simp
  show ?thesis
    using main_exit_status [of ?all ?solve "\<lambda>k. 0"] main_exit_status [of ?skip ?solve "\<lambda>k. 0"]
    unfolding a b by blast
qed

text \<open>
  Claim C1 as stated fails for a solution that throws what does not derive from
  \<^verbatim>\<open>std::exception\<close>, and for a directory that cannot be listed: \<^verbatim>\<open>main\<close>
  returns neither 0 nor 1.
\<close>

theorem main_exit_status_other_exception:
  "snd (main (Directory [(''1.in'', regular (''hello'' @ endl @ ''5'' @ endl)),
                         (''1.out'', regular (''10'' @ endl))])
          (\<lambda>text n. Inl OtherException) (\<lambda>k. 0)) = Inl OtherException
   \<and> snd (main (IterationFails [(''1.in'', regular (''hello'' @ endl @ ''5'' @ endl)),
                                (''1.out'', regular (''10'' @ endl))]
                   ''filesystem error'')
          (\<lambda>text n. Inr (2 * n)) (\<lambda>k. 0)) = Inl (StdException ''filesystem error'')"
  by code_simp

subsection \<open>Exceptions of the solution\<close>

text \<open>
  Claim C5, as amended. When the solution is reached and throws an exception
  derived from \<^verbatim>\<open>std::exception\<close>, \<^verbatim>\<open>run_test\<close> prints the FAILED line and
  the text of \<^verbatim>\<open>what()\<close> and returns false, and the loop of \<^verbatim>\<open>main\<close> goes
  on with the next test case and the same \<^verbatim>\<open>passed_count\<close>.
\<close>

theorem run_test_catches_std_exception:
  assumes "ifstream_open tests (path_append TESTS_DIR (case_name @ ''.in'')) = Some input_stream"
    and "read_file_content tests (path_append TESTS_DIR (case_name @ ''.out'')) = Inr content"
    and "solve (snd (getline input_stream []))
               (snd (extract_int (fst (getline input_stream [])) (uninit k)))
           = Inl (StdException what)"
  shows "run_test tests solve (uninit k) case_name
      = (print_colored (CROSS_MARK @ '' FAILED'') ''red'' @ endl
         @ ''   - Error: An exception occurred: '' @ what @ endl,
         Inr False)
    \<and> run_tests tests solve uninit k (case_name # test_cases) passed_count
      = (fst (run_test tests solve (uninit k) case_name)
           @ fst (run_tests tests solve uninit (Suc k) test_cases passed_count),
         snd (run_tests tests solve uninit (Suc k) test_cases passed_count))"
proof -
  have failed: "run_test tests solve (uninit k) case_name
      = (print_colored (CROSS_MARK @ '' FAILED'') ''red'' @ endl
         @ ''   - Error: An exception occurred: '' @ what @ endl,
         Inr False)"
    using run_test_solution [OF assms(1,2), of solve "uninit k"] by (simp add: assms(3))
  then have "snd (run_test tests solve (uninit k) case_name) = Inr False"
    by simp
  from run_tests_step [where uninit = uninit and k = k, OF this] failed
  show ?thesis by simp
qed

theorem run_test_catches_std_exception_witness:
  "run_test (Directory [(''3.in'', regular (''hello'' @ endl @ ''5'' @ endl)),
                        (''3.out'', regular (''10'' @ endl))])
      (\<lambda>text n. Inl (StdException ''boom'')) 0 ''3''
     = (print_colored (CROSS_MARK @ '' FAILED'') ''red'' @ endl
        @ ''   - Error: An exception occurred: '' @ ''boom'' @ endl,
        Inr False)"
proof -
  let ?tests = "Directory [(''3.in'', regular (''hello'' @ endl @ ''5'' @ endl)),
                           (''3.out'', regular (''10'' @ endl))]"
  let ?stream = "\<lparr>rest = ''hello'' @ endl @ ''5'' @ endl, eofbit = False, failbit = False\<rparr>"
  have a: "ifstream_open ?tests (path_append TESTS_DIR (''3'' @ ''.in'')) = Some ?stream"
    by code_simp
  have b: "read_file_content ?tests (path_append TESTS_DIR (''3'' @ ''.out'')) = Inr (''10'' @ endl)"
    by code_simp
  have c: "(\<lambda>text n. Inl (StdException ''boom'')) (snd (getline ?stream []))
             (snd (extract_int (fst (getline ?stream [])) ((\<lambda>k. 0) 0)))
           = (Inl (StdException ''boom'') :: thrown + int)"
    by simp
  from run_test_catches_std_exception
    [where solve = "\<lambda>text n. Inl (StdException ''boom'')" and uninit = "\<lambda>k. 0" and k = 0,
     OF a b c]
  show ?thesis
    by (rule conjunct1)
qed

text \<open>
  Claim C5 as stated fails for an exception that does not derive from
  \<^verbatim>\<open>std::exception\<close>: it leaves \<^verbatim>\<open>run_test\<close>, and \<^verbatim>\<open>main\<close> ends with it
  before the next test case is run.
\<close>

theorem run_test_other_exception_escapes:
  "run_test (Directory [(''3.in'', regular (''hello'' @ endl @ ''5'' @ endl)),
                        (''3.out'', regular (''10'' @ endl)),
                        (''4.in'', regular (''world'' @ endl @ ''6'' @ endl)),
                        (''4.out'', regular (''12'' @ endl))])
      (\<lambda>text n. if n = 5 then Inl OtherException else Inr (2 * n)) 0 ''3''
     = ([], Inl OtherException)
   \<and> main (Directory [(''3.in'', regular (''hello'' @ endl @ ''5'' @ endl)),
                       (''3.out'', regular (''10'' @ endl)),
                       (''4.in'', regular (''world'' @ endl @ ''6'' @ endl)),
                       (''4.out'', regular (''12'' @ endl))])
      (\<lambda>text n. if n = 5 then Inl OtherException else Inr (2 * n)) (\<lambda>k. 0)
     = ([], Inl OtherException)"
  by code_simp

subsection \<open>An input file without an integer\<close>

lemma extract_int_token:
  assumes "good s"
    and "dropWhile isspace (rest s) \<noteq> []"
    and "strip_sign (dropWhile isspace (rest s)) = (neg, r1)"
  shows "snd (extract_int s n)
    = (if takeWhile isdigit r1 = [] then 0
       else max INT_MIN (min INT_MAX
              (if neg then - int (digits_value (takeWhile isdigit r1))
               else int (digits_value (takeWhile isdigit r1)))))"
proof -
  have bounds: "INT_MIN \<le> INT_MAX"
    by (simp add: INT_MIN_def INT_MAX_def)
  show ?thesis
    using assms(1,2) bounds
    unfolding extract_int_def Let_def assms(3) prod.case
    by (auto simp: max_def min_def)
qed

text \<open>
  Claim C4, as amended. When the input file opens and a token follows the first
  line, nothing is raised, whatever the token is: \<^verbatim>\<open>input_int\<close> is the value
  of the optional sign and the digits in front of the token, kept within the
  range of \<^verbatim>\<open>int\<close>, and 0 when no digit stands there. With an
  expected-output file that can be read and a solution that returns,
  \<^verbatim>\<open>run_test\<close> prints nothing and returns whether the two trimmed strings are
  equal, for every value of the uninitialised variable.
\<close>

theorem run_test_unparsed_integer:
  assumes "ifstream_open tests (path_append TESTS_DIR (case_name @ ''.in'')) = Some input_stream"
    and "getline input_stream [] = (stream1, input_str)"
    and "good stream1"
    and "dropWhile isspace (rest stream1) \<noteq> []"
    and "strip_sign (dropWhile isspace (rest stream1)) = (neg, r1)"
    and "read_file_content tests (path_append TESTS_DIR (case_name @ ''.out'')) = Inr content"
    and "solve input_str
           (if takeWhile isdigit r1 = [] then 0
            else max INT_MIN (min INT_MAX
                   (if neg then - int (digits_value (takeWhile isdigit r1))
                    else int (digits_value (takeWhile isdigit r1)))))
           = Inr result"
  shows "run_test tests solve uninit case_name
      = ([], Inr (trim_trailing (to_string result) = trim_trailing content))"
proof -
  define v where "v = (if takeWhile isdigit r1 = [] then 0
            else max INT_MIN (min INT_MAX
                   (if neg then - int (digits_value (takeWhile isdigit r1))
                    else int (digits_value (takeWhile isdigit r1)))))"
  have stored: "snd (extract_int stream1 uninit) = v"
    using extract_int_token [OF assms(3,4,5), of uninit] by (simp only: v_def)
  have returned: "solve input_str v = Inr result"
    using assms(7) by (simp only: v_def)
  from run_test_solution [OF assms(1,6), of solve uninit] show ?thesis
    unfolding assms(2) fst_conv snd_conv stored returned by simp
qed

theorem run_test_unparsed_integer_witness:
  "run_test (Directory [(''1.in'', regular (''hello'' @ endl @ ''abc'' @ endl)),
                        (''1.out'', regular (''7'' @ endl))])
      (\<lambda>text n. Inr (n + 7)) 99 ''1''
     = ([], Inr True)
   \<and> run_test (Directory [(''1.in'', regular (''hello'' @ endl @ ''5abc'' @ endl)),
                        (''1.out'', regular (''7'' @ endl))])
      (\<lambda>text n. Inr (n + 7)) 99 ''1''
     = ([], Inr False)"
proof -
  let ?word = "Directory [(''1.in'', regular (''hello'' @ endl @ ''abc'' @ endl)),
                          (''1.out'', regular (''7'' @ endl))]"
  let ?mixed = "Directory [(''1.in'', regular (''hello'' @ endl @ ''5abc'' @ endl)),
                           (''1.out'', regular (''7'' @ endl))]"
  let ?solve = "\<lambda>(text :: string) (n :: int). (Inr (n + 7) :: thrown + int)"
  let ?s1 = "\<lparr>rest = ''abc'' @ endl, eofbit = False, failbit = False\<rparr>"
  let ?s2 = "\<lparr>rest = ''5abc'' @ endl, eofbit = False, failbit = False\<rparr>"
  have a: "ifstream_open ?word (path_append TESTS_DIR (''1'' @ ''.in''))
             = Some \<lparr>rest = ''hello'' @ endl @ ''abc'' @ endl, eofbit = False, failbit = False\<rparr>"
    by code_simp
  have b: "getline \<lparr>rest = ''hello'' @ endl @ ''abc'' @ endl, eofbit = False, failbit = False\<rparr> []
             = (?s1, ''hello'')"
    by code_simp
  have c: "good ?s1"
    by code_simp
  have d: "dropWhile isspace (rest ?s1) \<noteq> []"
    by code_simp
  have e: "strip_sign (dropWhile isspace (rest ?s1)) = (False, ''abc'' @ endl)"
    by code_simp
  have f: "read_file_content ?word (path_append TESTS_DIR (''1'' @ ''.out'')) = Inr (''7'' @ endl)"
    by code_simp
  have g: "?solve ''hello''
             (if takeWhile isdigit (''abc'' @ endl) = [] then 0
              else max INT_MIN (min INT_MAX
                     (if False then - int (digits_value (takeWhile isdigit (''abc'' @ endl)))
                      else int (digits_value (takeWhile isdigit (''abc'' @ endl))))))
             = Inr 7"
    by code_simp
  have h: "(trim_trailing (to_string 7) = trim_trailing (''7'' @ endl)) = True"
    by code_simp
  have a': "ifstream_open ?mixed (path_append TESTS_DIR (''1'' @ ''.in''))
             = Some \<lparr>rest = ''hello'' @ endl @ ''5abc'' @ endl, eofbit = False, failbit = False\<rparr>"
    by code_simp
  have b': "getline \<lparr>rest = ''hello'' @ endl @ ''5abc'' @ endl, eofbit = False, failbit = False\<rparr> []
             = (?s2, ''hello'')"
    by code_simp
  have c': "good ?s2"
    by code_simp
  have d': "dropWhile isspace (rest ?s2) \<noteq> []"
    by code_simp
  have e': "strip_sign (dropWhile isspace (rest ?s2)) = (False, ''5abc'' @ endl)"
    by code_simp
  have f': "read_file_content ?mixed (path_append TESTS_DIR (''1'' @ ''.out'')) = Inr (''7'' @ endl)"
    by code_simp
  have g': "?solve ''hello''
             (if takeWhile isdigit (''5abc'' @ endl) = [] then 0
              else max INT_MIN (min INT_MAX
                     (if False then - int (digits_value (takeWhile isdigit (''5abc'' @ endl)))
                      else int (digits_value (takeWhile isdigit (''5abc'' @ endl))))))
             = Inr 12"
    by code_simp
  have h': "(trim_trailing (to_string 12) = trim_trailing (''7'' @ endl)) = False"
    by code_simp
  show ?thesis
    using run_test_unparsed_integer [where solve = ?solve and uninit = 99, OF a b c d e f g]
      run_test_unparsed_integer [where solve = ?solve and uninit = 99, OF a' b' c' d' e' f' g']
    unfolding h h' by blast
qed

text \<open>
  Claim C4 as stated fails: with a word in place of the integer the solution is
  called with 0, and the test passes when its result is the expected one.
\<close>

theorem run_test_unparsed_integer_passes:
  "run_test (Directory [(''1.in'', regular (''hello'' @ endl @ ''abc'' @ endl)),
                        (''1.out'', regular (''0'' @ endl))])
      (\<lambda>text n. Inr n) 99 ''1''
     = ([], Inr True)"
  by code_simp

subsection \<open>The names of the test cases\<close>

lemma set_map_filter_eq:
  "set (List.map_filter f xs) = {y. \<exists>x\<in>set xs. f x = Some y}"
  by (induction xs) (auto split: option.splits)

lemma case_number_of_entry_Some_iff:
  "case_number_of_entry (name, entry) = Some v
    \<longleftrightarrow> regular_file entry \<and> extension name = ''.in'' \<and> stoi (stem name) = Inr v"
  by (auto simp: case_number_of_entry_def split: sum.splits)

lemma set_find_test_cases:
  "\<exists>names. snd (find_test_cases (Directory entries) dir) = Inr names
    \<and> set names = {to_string v | v. \<exists>(name, entry)\<in>set entries.
         regular_file entry \<and> extension name = ''.in'' \<and> stoi (stem name) = Inr v}"
proof -
  define names where
    "names = map to_string (sort (List.map_filter case_number_of_entry entries))"
  have returned: "snd (find_test_cases (Directory entries) dir) = Inr names"
    by (simp add: find_test_cases_cases names_def)
  have "set names = to_string ` {v. \<exists>x\<in>set entries. case_number_of_entry x = Some v}"
    by (simp add: names_def set_map_filter_eq)
  also have "\<dots> = {to_string v | v. \<exists>(name, entry)\<in>set entries.
         regular_file entry \<and> extension name = ''.in'' \<and> stoi (stem name) = Inr v}"
    by (auto simp: case_number_of_entry_Some_iff [symmetric])
  finally show ?thesis using returned by blast
qed

text \<open>
  Claim C10, as amended. The names found are exactly the decimal texts of the
  numbers that \<^verbatim>\<open>std::stoi\<close> reads from the stems of the regular files with
  the extension \<^verbatim>\<open>.in\<close>, whatever the spelling of the stem. For such a file
  with number \<open>v\<close>, when the file that the decimal text of \<open>v\<close> names cannot
  be opened, the test case is among those found and \<^verbatim>\<open>run_test\<close> skips it for
  its missing input file.
\<close>

theorem find_test_cases_canonical_names:
  assumes "(name, entry) \<in> set entries"
    and "regular_file entry"
    and "extension name = ''.in''"
    and "stoi (stem name) = Inr v"
    and "ifstream_open (Directory entries) (path_append TESTS_DIR (to_string v @ ''.in'')) = None"
  shows "\<exists>names. snd (find_test_cases (Directory entries) dir) = Inr names
    \<and> set names
      = {to_string v | v. \<exists>(name, entry)\<in>set entries.
           regular_file entry \<and> extension name = ''.in'' \<and> stoi (stem name) = Inr v}
    \<and> to_string v \<in> set names
    \<and> run_test (Directory entries) solve uninit (to_string v)
      = (print_colored (WARNING_SIGN @ '' SKIPPED (Input file not found)'') ''bold'' @ endl,
         Inr False)"
proof -
  from set_find_test_cases [of entries dir]
  obtain names where returned: "snd (find_test_cases (Directory entries) dir) = Inr names"
    and names: "set names = {to_string v | v. \<exists>(name, entry)\<in>set entries.
         regular_file entry \<and> extension name = ''.in'' \<and> stoi (stem name) = Inr v}"
    by blast
  have "to_string v \<in> set names"
    unfolding names using assms(1-4) by blast
  with returned names run_test_input_missing [OF assms(5), of solve uninit]
  show ?thesis by blast
qed

theorem find_test_cases_canonical_names_witness:
  "snd (find_test_cases
          (Directory [(''007.in'', regular (''hello'' @ endl @ ''5'' @ endl)),
                      (''007.out'', regular (''10'' @ endl))])
          TESTS_DIR) = Inr [''7'']
   \<and> run_test (Directory [(''007.in'', regular (''hello'' @ endl @ ''5'' @ endl)),
                          (''007.out'', regular (''10'' @ endl))])
        (\<lambda>text n. Inr (2 * n)) 0 ''7''
     = (print_colored (WARNING_SIGN @ '' SKIPPED (Input file not found)'') ''bold'' @ endl,
        Inr False)"
proof -
  let ?entries = "[(''007.in'', regular (''hello'' @ endl @ ''5'' @ endl)),
                   (''007.out'', regular (''10'' @ endl))]"
  have a: "(''007.in'', regular (''hello'' @ endl @ ''5'' @ endl)) \<in> set ?entries"
    by simp
  have b: "regular_file (regular (''hello'' @ endl @ ''5'' @ endl))"
    by simp
  have c: "extension ''007.in'' = ''.in''"
    by code_simp
  have d: "stoi (stem ''007.in'') = Inr 7"
    by code_simp
  have s: "to_string 7 = ''7''"
    by code_simp
  have e: "ifstream_open (Directory ?entries) (path_append TESTS_DIR (to_string 7 @ ''.in'')) = None"
    by code_simp
  have f: "snd (find_test_cases (Directory ?entries) TESTS_DIR) = Inr [''7'']"
    by code_simp
  from find_test_cases_canonical_names
    [OF a b c d e, where solve = "\<lambda>text n. Inr (2 * n)" and uninit = 0 and dir = TESTS_DIR]
  show ?thesis
    unfolding s f by blast
qed

text \<open>
  Claim C10 as stated fails when the file with the decimal name is there too:
  the test case found for \<^verbatim>\<open>007.in\<close> is run on \<^verbatim>\<open>7.in\<close> and is not skipped.
\<close>

theorem find_test_cases_canonical_names_not_skipped:
  "snd (find_test_cases
          (Directory [(''007.in'', regular (''hello'' @ endl @ ''5'' @ endl)),
                      (''7.in'', regular (''world'' @ endl @ ''6'' @ endl)),
                      (''7.out'', regular (''12'' @ endl))])
          TESTS_DIR) = Inr [''7'', ''7'']
   \<and> run_test (Directory [(''007.in'', regular (''hello'' @ endl @ ''5'' @ endl)),
                          (''7.in'', regular (''world'' @ endl @ ''6'' @ endl)),
                          (''7.out'', regular (''12'' @ endl))])
        (\<lambda>text n. Inr (2 * n)) 0 ''7''
     = ([], Inr True)"
  by code_simp

end
